theory Spec2Isabelle
  imports Main
begin

section \<open>Lex model-building finders: single-item lookup and latest-version resolution\<close>

text \<open>
  The development embeds the finder functions of package \<open>lexmodels\<close>
  (\<open>FindBotVersionByName\<close>, \<open>FindSlotTypeVersionByName\<close>,
  \<open>FindLatestBotVersionByName\<close>, \<open>FindLatestIntentVersionByName\<close>,
  \<open>FindLatestSlotTypeVersionByName\<close>). A Go \<open>string\<close> is a \<open>string\<close> (a list of
  bytes), a \<open>*string\<close> is a \<open>string option\<close>, a Go \<open>error\<close> is an \<open>error option\<close>
  (\<open>None\<close> is \<open>nil\<close>), and a pair of results \<open>(v, err)\<close> is a HOL pair. The context
  argument carries no data; a cancellation shows up as a failed call of the service.
\<close>

subsection \<open>The standard library: \<open>strconv.Atoi\<close> and \<open>strconv.Itoa\<close>\<close>

text \<open>
  Go's \<open>int\<close> has \<open>intSize\<close> bits (64 on the platforms the provider is built for). No
  arithmetic is done on versions beyond comparison, so an \<open>int\<close> in the range that
  \<open>Atoi\<close> enforces stands for the machine integer.
\<close>

definition intSize :: nat where
  "intSize = 64"

text \<open>
  One byte of the digit loop: \<open>ch -= '0'; if ch > 9 { error }\<close>, the subtraction on a
  byte wrapping modulo 256.
\<close>

definition digit_of :: "char \<Rightarrow> nat option" where
  "digit_of ch = (let d = (of_char ch + 256 - 48) mod 256 in if d > 9 then None else Some d)"

text \<open>The digit loop \<open>n = n*10 + int(ch)\<close>, which fails at the first byte that is no digit.\<close>

fun parse_digits :: "string \<Rightarrow> nat \<Rightarrow> nat option" where
  "parse_digits [] n = Some n"
| "parse_digits (ch # s) n =
     (case digit_of ch of
        None \<Rightarrow> None
      | Some d \<Rightarrow> parse_digits s (n * 10 + d))"

text \<open>
  \<open>strconv.Atoi\<close>: an optional sign \<open>+\<close> or \<open>-\<close>, then at least one decimal digit and
  nothing else (no blanks, no underscores in base 10), the value within the range of
  \<open>int\<close>. \<open>None\<close> stands for every result with \<open>err != nil\<close> (a syntax error or a range
  error).
\<close>

definition Atoi :: "string \<Rightarrow> int option" where
  "Atoi s0 =
     (case s0 of
        [] \<Rightarrow> None
      | c # cs \<Rightarrow>
          (let s = (if c = CHR ''-'' \<or> c = CHR ''+'' then cs else s0) in
           if s = [] then None
           else case parse_digits s 0 of
                  None \<Rightarrow> None
                | Some n \<Rightarrow>
                    (let v = (if c = CHR ''-'' then - int n else int n) in
                     if - (2 ^ (intSize - 1)) \<le> v \<and> v < 2 ^ (intSize - 1) then Some v
                     else None)))"

text \<open>\<open>strconv.Itoa\<close>: the decimal digits of the magnitude, most significant first.\<close>

definition digit_char :: "nat \<Rightarrow> char" where
  "digit_char d = char_of (48 + d)"

function format_uint :: "nat \<Rightarrow> string" where
  "format_uint n = (if n < 10 then [digit_char n] else format_uint (n div 10) @ [digit_char (n mod 10)])"
  by pat_completeness auto
termination
  by (relation "measure (\<lambda>n. n)") auto

declare format_uint.simps [simp del]

definition Itoa :: "int \<Rightarrow> string" where
  "Itoa i = (if i < 0 then CHR ''-'' # format_uint (nat (- i)) else format_uint (nat i))"

text \<open>\<open>aws.ToString\<close>: the string a pointer refers to, the empty string for \<open>nil\<close>.\<close>

definition ToString :: "string option \<Rightarrow> string" where
  "ToString p = (case p of None \<Rightarrow> [] | Some s \<Rightarrow> s)"

subsection \<open>Requests and errors\<close>

text \<open>
  The two request structures that end up inside an error value (\<open>LastRequest\<close> is of
  type \<open>any\<close>): \<open>GetBotInput{Name, VersionOrAlias}\<close> and \<open>GetSlotTypeInput{Name, Version}\<close>.
\<close>

datatype request =
    GetBotInput string string
  | GetSlotTypeInput string string

text \<open>
  Error values. \<open>NotFoundException\<close> is the service's \<open>awstypes.NotFoundException\<close>,
  \<open>ServiceError\<close> any other failure of a call (transport, throttling, cancellation),
  \<open>Wrapped\<close> an error that wraps another one (\<open>Unwrap\<close>). \<open>NotFoundError\<close> is
  \<open>retry.NotFoundError{LastError, LastRequest}\<close>, whose \<open>LastError\<close> may be \<open>nil\<close>.

  Modelled from the spec: \<open>tfresource.NewEmptyResultError\<close> is declared outside the
  file; the spec only calls its result the provider's generic empty-result error, so
  \<open>EmptyResultError\<close> keeps the request it is built from and nothing else.
\<close>

datatype error =
    NotFoundException string
  | ServiceError string
  | Wrapped string error
  | NotFoundError "error option" request
  | EmptyResultError request

text \<open>
  Modelled from the spec: \<open>errs.IsA[*awstypes.NotFoundException]\<close> is declared outside
  the file; it recognises the not-found condition of the service: the error, or an error
  it wraps, is a \<open>NotFoundException\<close>. \<open>nil\<close> is no such error.
\<close>

fun is_NotFoundException :: "error \<Rightarrow> bool" where
  "is_NotFoundException (NotFoundException m) = True"
| "is_NotFoundException (ServiceError m) = False"
| "is_NotFoundException (Wrapped m e) = is_NotFoundException e"
| "is_NotFoundException (NotFoundError None r) = False"
| "is_NotFoundException (NotFoundError (Some e) r) = is_NotFoundException e"
| "is_NotFoundException (EmptyResultError r) = False"

definition IsA_NotFoundException :: "error option \<Rightarrow> bool" where
  "IsA_NotFoundException err = (case err of None \<Rightarrow> False | Some e \<Rightarrow> is_NotFoundException e)"

subsection \<open>Single-item lookups\<close>

text \<open>
  \<open>conn.GetBot\<close> and \<open>conn.GetSlotType\<close> are the service: a function from the request to
  the pair \<open>(output, err)\<close>. The output structures are not inspected, so their type is
  left open.
\<close>

definition FindBotVersionByName ::
  "(request \<Rightarrow> 'o option \<times> error option) \<Rightarrow> string \<Rightarrow> string \<Rightarrow> 'o option \<times> error option" where
  "FindBotVersionByName GetBot name version =
     (let input = GetBotInput name version;
          (output, err) = GetBot input
      in if IsA_NotFoundException err then (None, Some (NotFoundError err input))
         else if err \<noteq> None then (None, err)
         else if output = None then (None, Some (EmptyResultError input))
         else (output, None))"

definition FindSlotTypeVersionByName ::
  "(request \<Rightarrow> 'o option \<times> error option) \<Rightarrow> string \<Rightarrow> string \<Rightarrow> 'o option \<times> error option" where
  "FindSlotTypeVersionByName GetSlotType name version =
     (let input = GetSlotTypeInput name version;
          (output, err) = GetSlotType input
      in if IsA_NotFoundException err then (None, Some (NotFoundError err input))
         else if err \<noteq> None then (None, err)
         else if output = None then (None, Some (EmptyResultError input))
         else (output, None))"

subsection \<open>Paginated listing\<close>

text \<open>
  One call of the listing endpoint either fails or yields a page; the page pointer may be
  \<open>nil\<close>. What the service answers to the successive requests for one name is a finite
  list of such answers.
\<close>

datatype 'p fetch =
    FetchError error
  | FetchPage "'p option"

text \<open>
  Modelled from the spec: the pagers \<open>GetBotVersionsPagesWithContext\<close>,
  \<open>GetIntentVersionsPagesWithContext\<close> and \<open>GetSlotTypeVersionsPagesWithContext\<close> are
  declared outside the file. By the spec the paging capability yields successive pages
  until exhaustion or an error; the callback receives each page and the flag "this is the
  last page" and returns whether to continue; a failed fetch ends the iteration and is
  the pager's error. The callback updates the variable it captures, here the state \<open>s\<close>.
\<close>

fun PagesWithContext ::
  "'p fetch list \<Rightarrow> ('p option \<Rightarrow> bool \<Rightarrow> 's \<Rightarrow> bool \<times> 's) \<Rightarrow> 's \<Rightarrow> error option \<times> 's" where
  "PagesWithContext [] fn s = (None, s)"
| "PagesWithContext (FetchError e # rest) fn s = (Some e, s)"
| "PagesWithContext (FetchPage page # rest) fn s =
     (let lastPage = (rest = []);
          (continue, s') = fn page lastPage s
      in if continue \<and> \<not> lastPage then PagesWithContext rest fn s' else (None, s'))"

subsection \<open>Latest-version resolution\<close>

text \<open>
  The records of the three listings; only the field \<open>Version\<close> (a \<open>*string\<close>) is read.
\<close>

record BotMetadata =
  bot_Version :: "string option"

record IntentMetadata =
  intent_Version :: "string option"

record SlotTypeMetadata =
  slot_Version :: "string option"

record GetBotVersionsOutput =
  Bots :: "BotMetadata list"

record GetIntentVersionsOutput =
  Intents :: "IntentMetadata list"

record GetSlotTypeVersionsOutput =
  SlotTypes :: "SlotTypeMetadata list"

text \<open>
  The sentinel constants \<open>BotVersionLatest\<close>, \<open>IntentVersionLatest\<close> and
  \<open>SlotTypeVersionLatest\<close> are declared outside the file (the comments of the finders
  give \<open>$LATEST\<close>); each resolver takes its constant as its first argument.

  The loop over the records of one page, with the running maximum \<open>latestVersion\<close>.
\<close>

fun scan_bots :: "string \<Rightarrow> BotMetadata list \<Rightarrow> int \<Rightarrow> int" where
  "scan_bots BotVersionLatest [] latestVersion = latestVersion"
| "scan_bots BotVersionLatest (b # bots) latestVersion =
     (let version = ToString (bot_Version b) in
      if version = BotVersionLatest then scan_bots BotVersionLatest bots latestVersion
      else case Atoi version of
             None \<Rightarrow> scan_bots BotVersionLatest bots latestVersion
           | Some version \<Rightarrow>
               if version > latestVersion then scan_bots BotVersionLatest bots version
               else scan_bots BotVersionLatest bots latestVersion)"

text \<open>The page callback: a \<open>nil\<close> page contributes nothing; the answer is \<open>!lastPage\<close>.\<close>

definition bot_page_fn ::
  "string \<Rightarrow> GetBotVersionsOutput option \<Rightarrow> bool \<Rightarrow> int \<Rightarrow> bool \<times> int" where
  "bot_page_fn BotVersionLatest page lastPage latestVersion =
     (case page of
        None \<Rightarrow> (\<not> lastPage, latestVersion)
      | Some p \<Rightarrow> (\<not> lastPage, scan_bots BotVersionLatest (Bots p) latestVersion))"

definition FindLatestBotVersionByName ::
  "string \<Rightarrow> (string \<Rightarrow> GetBotVersionsOutput fetch list) \<Rightarrow> string \<Rightarrow> string \<times> error option" where
  "FindLatestBotVersionByName BotVersionLatest conn name =
     (let (err, latestVersion) = PagesWithContext (conn name) (bot_page_fn BotVersionLatest) 0
      in if err \<noteq> None then ([], err)
         else if latestVersion = 0 then (BotVersionLatest, None)
         else (Itoa latestVersion, None))"

fun scan_intents :: "string \<Rightarrow> IntentMetadata list \<Rightarrow> int \<Rightarrow> int" where
  "scan_intents IntentVersionLatest [] latestVersion = latestVersion"
| "scan_intents IntentVersionLatest (intent # intents) latestVersion =
     (let version = ToString (intent_Version intent) in
      if version = IntentVersionLatest then scan_intents IntentVersionLatest intents latestVersion
      else case Atoi version of
             None \<Rightarrow> scan_intents IntentVersionLatest intents latestVersion
           | Some version \<Rightarrow>
               if version > latestVersion then scan_intents IntentVersionLatest intents version
               else scan_intents IntentVersionLatest intents latestVersion)"

definition intent_page_fn ::
  "string \<Rightarrow> GetIntentVersionsOutput option \<Rightarrow> bool \<Rightarrow> int \<Rightarrow> bool \<times> int" where
  "intent_page_fn IntentVersionLatest page lastPage latestVersion =
     (case page of
        None \<Rightarrow> (\<not> lastPage, latestVersion)
      | Some p \<Rightarrow> (\<not> lastPage, scan_intents IntentVersionLatest (Intents p) latestVersion))"

definition FindLatestIntentVersionByName ::
  "string \<Rightarrow> (string \<Rightarrow> GetIntentVersionsOutput fetch list) \<Rightarrow> string \<Rightarrow> string \<times> error option" where
  "FindLatestIntentVersionByName IntentVersionLatest conn name =
     (let (err, latestVersion) = PagesWithContext (conn name) (intent_page_fn IntentVersionLatest) 0
      in if err \<noteq> None then ([], err)
         else if latestVersion = 0 then (IntentVersionLatest, None)
         else (Itoa latestVersion, None))"

fun scan_slots :: "string \<Rightarrow> SlotTypeMetadata list \<Rightarrow> int \<Rightarrow> int" where
  "scan_slots SlotTypeVersionLatest [] latestVersion = latestVersion"
| "scan_slots SlotTypeVersionLatest (slot # slots) latestVersion =
     (let version = ToString (slot_Version slot) in
      if version = SlotTypeVersionLatest then scan_slots SlotTypeVersionLatest slots latestVersion
      else case Atoi version of
             None \<Rightarrow> scan_slots SlotTypeVersionLatest slots latestVersion
           | Some version \<Rightarrow>
               if version > latestVersion then scan_slots SlotTypeVersionLatest slots version
               else scan_slots SlotTypeVersionLatest slots latestVersion)"

definition slot_page_fn ::
  "string \<Rightarrow> GetSlotTypeVersionsOutput option \<Rightarrow> bool \<Rightarrow> int \<Rightarrow> bool \<times> int" where
  "slot_page_fn SlotTypeVersionLatest page lastPage latestVersion =
     (case page of
        None \<Rightarrow> (\<not> lastPage, latestVersion)
      | Some p \<Rightarrow> (\<not> lastPage, scan_slots SlotTypeVersionLatest (SlotTypes p) latestVersion))"

definition FindLatestSlotTypeVersionByName ::
  "string \<Rightarrow> (string \<Rightarrow> GetSlotTypeVersionsOutput fetch list) \<Rightarrow> string \<Rightarrow> string \<times> error option" where
  "FindLatestSlotTypeVersionByName SlotTypeVersionLatest conn name =
     (let (err, latestVersion) = PagesWithContext (conn name) (slot_page_fn SlotTypeVersionLatest) 0
      in if err \<noteq> None then ([], err)
         else if latestVersion = 0 then (SlotTypeVersionLatest, None)
         else (Itoa latestVersion, None))"

subsection \<open>Vocabulary of the properties\<close>

text \<open>The first failed fetch of a list of answers, if any.\<close>

fun first_error :: "'p fetch list \<Rightarrow> error option" where
  "first_error [] = None"
| "first_error (FetchError e # t) = Some e"
| "first_error (FetchPage page # t) = first_error t"

text \<open>The version labels of the records of one page, and of all pages of a result set.\<close>

definition page_labels :: "GetBotVersionsOutput option \<Rightarrow> string list" where
  "page_labels page =
     (case page of None \<Rightarrow> [] | Some p \<Rightarrow> map (\<lambda>b. ToString (bot_Version b)) (Bots p))"

fun all_labels :: "GetBotVersionsOutput fetch list \<Rightarrow> string list" where
  "all_labels [] = []"
| "all_labels (FetchError e # t) = all_labels t"
| "all_labels (FetchPage page # t) = page_labels page @ all_labels t"

text \<open>
  The numeric versions of a list of labels: the labels other than the sentinel that
  \<open>Atoi\<close> accepts, as integers.
\<close>

definition numeric_versions :: "string \<Rightarrow> string list \<Rightarrow> int list" where
  "numeric_versions sentinel labels = List.map_filter Atoi (filter (\<lambda>l. l \<noteq> sentinel) labels)"

text \<open>
  The resolution in the words of the specification: the sentinel if no numeric version was
  observed, otherwise the decimal string of the maximum.
\<close>

definition spec_latest :: "string \<Rightarrow> string list \<Rightarrow> string" where
  "spec_latest sentinel labels =
     (let vs = numeric_versions sentinel labels
      in if vs = [] then sentinel else Itoa (Max (set vs)))"

text \<open>The same with the numeric versions restricted to the positive ones.\<close>

definition published_versions :: "string \<Rightarrow> string list \<Rightarrow> int list" where
  "published_versions sentinel labels = filter (\<lambda>v. 0 < v) (numeric_versions sentinel labels)"

definition latest_published :: "string \<Rightarrow> string list \<Rightarrow> string" where
  "latest_published sentinel labels =
     (let vs = published_versions sentinel labels
      in if vs = [] then sentinel else Itoa (Max (set vs)))"

text \<open>
  A decimal integer string without sign and without leading zeros: at least one byte, all
  of them digits, the first one \<open>0\<close> only in the string \<open>0\<close> itself.
\<close>

definition is_digit :: "char \<Rightarrow> bool" where
  "is_digit c = (digit_of c \<noteq> None)"

definition is_decimal :: "string \<Rightarrow> bool" where
  "is_decimal s = (s \<noteq> [] \<and> list_all is_digit s \<and> (hd s \<noteq> CHR ''0'' \<or> s = ''0''))"

text \<open>
  A result set with the malformed records removed: the records whose label is neither the
  sentinel nor accepted by \<open>Atoi\<close>.
\<close>

definition well_formed :: "string \<Rightarrow> BotMetadata \<Rightarrow> bool" where
  "well_formed sentinel b =
     (ToString (bot_Version b) = sentinel \<or> Atoi (ToString (bot_Version b)) \<noteq> None)"

definition drop_malformed ::
  "string \<Rightarrow> GetBotVersionsOutput fetch list \<Rightarrow> GetBotVersionsOutput fetch list" where
  "drop_malformed sentinel t =
     map (map_fetch (\<lambda>p. p\<lparr>Bots := filter (well_formed sentinel) (Bots p)\<rparr>)) t"

text \<open>
  Pages of the three listings built from the same version fields, to compare the three
  resolvers on the same data.
\<close>

definition bots_of :: "string option list \<Rightarrow> GetBotVersionsOutput" where
  "bots_of vs = \<lparr>Bots = map (\<lambda>v. \<lparr>bot_Version = v\<rparr>) vs\<rparr>"

definition intents_of :: "string option list \<Rightarrow> GetIntentVersionsOutput" where
  "intents_of vs = \<lparr>Intents = map (\<lambda>v. \<lparr>intent_Version = v\<rparr>) vs\<rparr>"

definition slot_types_of :: "string option list \<Rightarrow> GetSlotTypeVersionsOutput" where
  "slot_types_of vs = \<lparr>SlotTypes = map (\<lambda>v. \<lparr>slot_Version = v\<rparr>) vs\<rparr>"

text \<open>
  Concrete services for the examples: one that gives the same answer to every request,
  and a successful page of bots with the given labels.
\<close>

definition always :: "'a \<Rightarrow> 'b \<Rightarrow> 'a" where
  "always answer request = answer"

definition bot_page :: "string list \<Rightarrow> GetBotVersionsOutput fetch" where
  "bot_page labels = FetchPage (Some (bots_of (map Some labels)))"

section \<open>Properties\<close>

subsection \<open>Digits, formatting and parsing\<close>

lemma digit_of_digit_char: "d < 10 \<Longrightarrow> digit_of (digit_char d) = Some d"
  by (simp add: digit_of_def digit_char_def)

lemma digit_char_not_sign: "d < 10 \<Longrightarrow> digit_char d \<noteq> CHR ''-'' \<and> digit_char d \<noteq> CHR ''+''"
  by (auto simp add: digit_char_def char_of_eq_iff take_bit_eq_mod)

lemma digit_char_zero: "d < 10 \<Longrightarrow> digit_char d = CHR ''0'' \<longleftrightarrow> d = 0"
  by (auto simp add: digit_char_def char_of_eq_iff take_bit_eq_mod)

lemma format_uint_nonempty: "format_uint n \<noteq> []"
  by (subst format_uint.simps) simp

lemma hd_format_uint: "\<exists>d<10. hd (format_uint n) = digit_char d \<and> (d = 0 \<longrightarrow> n = 0)"
proof (induction n rule: format_uint.induct)
  case (1 n)
  show ?case
  proof (cases "n < 10")
    case True
    then show ?thesis by (subst format_uint.simps) auto
  next
    case False
    with 1 obtain d where "d < 10" "hd (format_uint (n div 10)) = digit_char d" "d = 0 \<longrightarrow> n div 10 = 0"
      by blast
    with False show ?thesis
      by (subst format_uint.simps) (auto simp: format_uint_nonempty intro!: exI[of _ d])
  qed
qed

lemma parse_digits_append:
  "parse_digits (xs @ ys) n = (case parse_digits xs n of None \<Rightarrow> None | Some m \<Rightarrow> parse_digits ys m)"
  by (induction xs arbitrary: n) (auto split: option.splits)

lemma parse_format_uint: "parse_digits (format_uint n) 0 = Some n"
proof (induction n rule: format_uint.induct)
  case (1 n)
  show ?case
  proof (cases "n < 10")
    case True
    then show ?thesis by (subst format_uint.simps) (simp add: digit_of_digit_char)
  next
    case False
    with 1 have "parse_digits (format_uint (n div 10)) 0 = Some (n div 10)" by simp
    with False show ?thesis
      by (subst format_uint.simps) (simp add: parse_digits_append digit_of_digit_char)
  qed
qed

lemma is_digit_digit_char: "d < 10 \<Longrightarrow> is_digit (digit_char d)"
  by (simp add: is_digit_def digit_of_digit_char)

lemma digits_format_uint: "list_all is_digit (format_uint n)"
proof (induction n rule: format_uint.induct)
  case (1 n)
  show ?case
  proof (cases "n < 10")
    case True
    then show ?thesis by (subst format_uint.simps) (simp add: is_digit_digit_char)
  next
    case False
    with 1 show ?thesis
      by (subst format_uint.simps) (simp add: is_digit_digit_char)
  qed
qed

lemma format_uint_zero: "format_uint 0 = ''0''"
proof -
  have "digit_char 0 = CHR ''0''"
    using digit_char_zero [of 0] by simp
  then show ?thesis
    by (subst format_uint.simps) simp
qed

lemma is_decimal_Itoa: "0 \<le> i \<Longrightarrow> is_decimal (Itoa i)"
proof -
  assume nonneg: "0 \<le> i"
  obtain d where d: "d < 10" "hd (format_uint (nat i)) = digit_char d" "d = 0 \<longrightarrow> nat i = 0"
    using hd_format_uint by blast
  show ?thesis
  proof (cases "d = 0")
    case True
    with d nonneg have "Itoa i = ''0''"
      by (simp add: Itoa_def format_uint_zero)
    then show ?thesis
      by (simp add: is_decimal_def is_digit_def digit_of_def)
  next
    case False
    with d nonneg show ?thesis
      by (simp add: is_decimal_def Itoa_def format_uint_nonempty digits_format_uint digit_char_zero)
  qed
qed

lemma Atoi_Itoa: "0 \<le> i \<Longrightarrow> i < 2 ^ 63 \<Longrightarrow> Atoi (Itoa i) = Some i"
proof -
  assume i: "0 \<le> i" "i < 2 ^ 63"
  obtain d where d: "d < 10" "hd (format_uint (nat i)) = digit_char d"
    using hd_format_uint by blast
  obtain c cs where f: "format_uint (nat i) = c # cs"
    using format_uint_nonempty by (cases "format_uint (nat i)") auto
  with d have c: "c \<noteq> CHR ''-''" "c \<noteq> CHR ''+''"
    using digit_char_not_sign by auto
  have "parse_digits (c # cs) 0 = Some (nat i)"
    using parse_format_uint[of "nat i"] f by simp
  with i c f show ?thesis
    unfolding Atoi_def Itoa_def intSize_def by (simp del: parse_digits.simps)
qed

lemma Atoi_range: "Atoi l = Some v \<Longrightarrow> - (2 ^ 63) \<le> v \<and> v < 2 ^ 63"
  by (auto simp: Atoi_def intSize_def Let_def split: list.splits option.splits if_splits)

subsection \<open>The scan as a maximum\<close>

lemma numeric_versions_Nil: "numeric_versions s [] = []"
  by (simp add: numeric_versions_def map_filter_simps)

lemma numeric_versions_Cons:
  "numeric_versions s (l # ls) =
     (if l = s then numeric_versions s ls
      else case Atoi l of None \<Rightarrow> numeric_versions s ls | Some v \<Rightarrow> v # numeric_versions s ls)"
  by (simp add: numeric_versions_def map_filter_simps split: option.splits)

lemma numeric_versions_append:
  "numeric_versions s (xs @ ys) = numeric_versions s xs @ numeric_versions s ys"
  by (induction xs) (simp_all add: numeric_versions_Nil numeric_versions_Cons split: option.splits)

lemma set_numeric_versions:
  "set (numeric_versions s ls) = {v. \<exists>l \<in> set ls. l \<noteq> s \<and> Atoi l = Some v}"
  by (induction ls) (auto simp: numeric_versions_Nil numeric_versions_Cons split: option.splits)

lemma scan_bots_fold:
  "scan_bots s bots v = fold max (numeric_versions s (map (\<lambda>b. ToString (bot_Version b)) bots)) v"
proof (induction bots arbitrary: v)
  case Nil
  show ?case by (simp add: numeric_versions_Nil)
next
  case (Cons b bots)
  show ?case
    by (simp add: Cons.IH numeric_versions_Cons Let_def max_def split: option.splits)
qed

lemma bot_page_fn_eq:
  "bot_page_fn s page lastPage v = (\<not> lastPage, fold max (numeric_versions s (page_labels page)) v)"
  by (cases page) (simp_all add: bot_page_fn_def page_labels_def scan_bots_fold numeric_versions_Nil)

lemma pages_no_error:
  "first_error t = None \<Longrightarrow>
     PagesWithContext t (bot_page_fn s) v = (None, fold max (numeric_versions s (all_labels t)) v)"
proof (induction t arbitrary: v)
  case Nil
  show ?case by (simp add: numeric_versions_Nil)
next
  case (Cons f t)
  show ?case
  proof (cases f)
    case (FetchError e)
    with Cons.prems show ?thesis by simp
  next
    case (FetchPage page)
    with Cons.prems have t: "first_error t = None" by simp
    show ?thesis
    proof (cases "t = []")
      case True
      with FetchPage show ?thesis
        by (simp add: bot_page_fn_eq numeric_versions_Nil)
    next
      case False
      with FetchPage Cons.IH [OF t] show ?thesis
        by (simp add: bot_page_fn_eq numeric_versions_append)
    qed
  qed
qed

lemma pages_error:
  "first_error t = Some e \<Longrightarrow> fst (PagesWithContext t (bot_page_fn s) v) = Some e"
proof (induction t arbitrary: v)
  case Nil
  then show ?case by simp
next
  case (Cons f t)
  show ?case
  proof (cases f)
    case (FetchError e')
    with Cons.prems show ?thesis by simp
  next
    case (FetchPage page)
    with Cons.prems have t: "first_error t = Some e" by simp
    then have "t \<noteq> []" by auto
    with FetchPage Cons.IH [OF t] show ?thesis
      by (simp add: bot_page_fn_eq)
  qed
qed

lemma fold_max_Max: "fold max vs (v::int) = Max (set (v # vs))"
  by (rule Max.set_eq_fold [symmetric])

lemma Max_positive:
  assumes "filter (\<lambda>v. 0 < v) vs \<noteq> []"
  shows "0 < Max (set (filter (\<lambda>v. (0::int) < v) vs))"
proof -
  from assms have "set (filter (\<lambda>v. 0 < v) vs) \<noteq> {}"
    using set_empty by blast
  then have "Max (set (filter (\<lambda>v. 0 < v) vs)) \<in> set (filter (\<lambda>v. 0 < v) vs)"
    using Max_in by blast
  then show ?thesis by simp
qed

lemma fold_max_zero:
  "fold max vs (0::int) =
     (if filter (\<lambda>v. 0 < v) vs = [] then 0 else Max (set (filter (\<lambda>v. 0 < v) vs)))"
proof (cases "filter (\<lambda>v. 0 < v) vs = []")
  case True
  then have "\<forall>v \<in> set vs. v \<le> 0"
    by (auto simp: filter_empty_conv)
  then have "Max (insert 0 (set vs)) = 0"
    by (intro Max_eqI) auto
  with True show ?thesis
    by (simp add: fold_max_Max)
next
  case False
  let ?P = "set (filter (\<lambda>v. 0 < v) vs)"
  have pos: "0 < Max ?P"
    using False by (rule Max_positive)
  have "Max (insert 0 (set vs)) = Max ?P"
  proof (rule Max_eqI)
    show "finite (insert 0 (set vs))" by simp
    have "?P \<noteq> {}"
      using False set_empty by blast
    then have "Max ?P \<in> ?P"
      using Max_in by blast
    then show "Max ?P \<in> insert 0 (set vs)" by simp
    fix y assume y: "y \<in> insert 0 (set vs)"
    show "y \<le> Max ?P"
    proof (cases "0 < y")
      case True
      with y have "y \<in> ?P" by auto
      then show ?thesis by simp
    next
      case False
      with pos show ?thesis by linarith
    qed
  qed
  with False show ?thesis
    by (simp add: fold_max_Max)
qed

lemma resolver_eq:
  "FindLatestBotVersionByName s conn name =
     (case first_error (conn name) of
        Some e \<Rightarrow> ([], Some e)
      | None \<Rightarrow> (latest_published s (all_labels (conn name)), None))"
proof (cases "first_error (conn name)")
  case None
  let ?vs = "numeric_versions s (all_labels (conn name))"
  show ?thesis
  proof (cases "filter (\<lambda>v. 0 < v) ?vs = []")
    case True
    with None show ?thesis
      by (simp add: FindLatestBotVersionByName_def pages_no_error [OF None] fold_max_zero
          latest_published_def published_versions_def)
  next
    case False
    from Max_positive [OF False] have "Max (set (filter (\<lambda>v. 0 < v) ?vs)) \<noteq> 0"
      by simp
    with False None show ?thesis
      by (simp add: FindLatestBotVersionByName_def pages_no_error [OF None] fold_max_zero
          latest_published_def published_versions_def)
  qed
next
  case (Some e)
  obtain err v where r: "PagesWithContext (conn name) (bot_page_fn s) 0 = (err, v)"
    by (cases "PagesWithContext (conn name) (bot_page_fn s) 0")
  with pages_error [OF Some, of s 0] have "err = Some e" by simp
  with r Some show ?thesis
    by (simp add: FindLatestBotVersionByName_def)
qed

lemma first_error_append:
  "first_error (xs @ ys) = (case first_error xs of Some e \<Rightarrow> Some e | None \<Rightarrow> first_error ys)"
  by (induction xs rule: first_error.induct) simp_all

lemma all_labels_append: "all_labels (xs @ ys) = all_labels xs @ all_labels ys"
  by (induction xs rule: all_labels.induct) simp_all

subsection \<open>Latest-version resolution\<close>

text \<open>
  Claim C1, as amended. For every sentinel, service and resource name: when no fetch fails,
  \<open>FindLatestBotVersionByName\<close> skips the records whose label is the sentinel and the
  records whose label \<open>Atoi\<close> rejects, takes the maximum of the parsed integers greater than
  zero over all pages, and returns the sentinel when there is no such integer, otherwise
  the maximum as its decimal string, with a \<open>nil\<close> error. When a fetch fails the result is
  the empty string with the error of that fetch.
\<close>

theorem latest_version_resolution:
  "FindLatestBotVersionByName sentinel conn name =
     (case first_error (conn name) of
        Some e \<Rightarrow> ([], Some e)
      | None \<Rightarrow> (latest_published sentinel (all_labels (conn name)), None))"
  by (rule resolver_eq)

theorem latest_version_resolution_witness:
  "FindLatestBotVersionByName ''$LATEST''
     (always [bot_page [''1'', ''$LATEST''], FetchPage None, bot_page [''3'', ''x'', ''2'']]) ''bot''
   = (''3'', None)"
proof -
  let ?t = "[bot_page [''1'', ''$LATEST''], FetchPage None, bot_page [''3'', ''x'', ''2'']]"
  have e: "first_error (always ?t ''bot'') = None"
    by (simp add: always_def bot_page_def)
  have l: "all_labels (always ?t ''bot'') = [''1'', ''$LATEST'', ''3'', ''x'', ''2'']"
    by (simp add: always_def bot_page_def bots_of_def page_labels_def ToString_def)
  have v: "latest_published ''$LATEST'' [''1'', ''$LATEST'', ''3'', ''x'', ''2''] = ''3''"
    by code_simp
  show ?thesis
    using latest_version_resolution [of "''$LATEST''" "always ?t" "''bot''"]
    by (simp add: e l v)
qed

text \<open>
  As the specification words claim C1, a numeric label that is observed decides the result.
  For the single label \<open>0\<close> the resolver returns the sentinel, where the specification's
  resolution gives the string \<open>0\<close>.
\<close>

theorem latest_version_zero_counterexample:
  "FindLatestBotVersionByName ''$LATEST'' (always [bot_page [''0'']]) ''bot''
     \<noteq> (spec_latest ''$LATEST'' (all_labels (always [bot_page [''0'']] ''bot'')), None)
   \<and> first_error (always [bot_page [''0'']] ''bot'') = None
   \<and> FindLatestBotVersionByName ''$LATEST'' (always [bot_page [''0'']]) ''bot'' = (''$LATEST'', None)
   \<and> spec_latest ''$LATEST'' (all_labels (always [bot_page [''0'']] ''bot'')) = ''0''"
  by code_simp

text \<open>
  Claim C2. If, after any number of successful fetches, a page fetch fails with an error,
  \<open>FindLatestBotVersionByName\<close> returns exactly that error together with the empty
  version string, whatever the pages before it held and whatever would have followed.
\<close>

theorem fetch_error_propagates:
  assumes "conn name = pre @ FetchError e # rest"
    and "first_error pre = None"
  shows "FindLatestBotVersionByName sentinel conn name = ([], Some e)"
proof -
  from assms have "first_error (conn name) = Some e"
    by (simp add: first_error_append)
  then show ?thesis
    by (simp add: resolver_eq)
qed

theorem fetch_error_propagates_witness:
  "FindLatestBotVersionByName ''$LATEST''
     (always ([bot_page [''4''], FetchPage None] @ FetchError (ServiceError ''timeout'') # [bot_page [''9'']]))
     ''bot''
   = ([], Some (ServiceError ''timeout''))"
proof -
  let ?pre = "[bot_page [''4''], FetchPage None]"
  let ?rest = "[bot_page [''9'']]"
  have c: "always (?pre @ FetchError (ServiceError ''timeout'') # ?rest) ''bot''
             = ?pre @ FetchError (ServiceError ''timeout'') # ?rest"
    by (simp add: always_def)
  have p: "first_error ?pre = None"
    by (simp add: bot_page_def)
  show ?thesis
    by (rule fetch_error_propagates
        [where conn = "always (?pre @ FetchError (ServiceError ''timeout'') # ?rest)"
           and name = "''bot''", OF c p])
qed

text \<open>
  Claim C7. For an empty result set, that is, every fetch succeeds and no page holds a
  record, \<open>FindLatestBotVersionByName\<close> returns the sentinel and a \<open>nil\<close> error.
\<close>

theorem empty_result_set:
  assumes "first_error (conn name) = None"
    and "all_labels (conn name) = []"
  shows "FindLatestBotVersionByName sentinel conn name = (sentinel, None)"
  using assms
  by (simp add: resolver_eq latest_published_def published_versions_def numeric_versions_Nil)

theorem empty_result_set_witness:
  "FindLatestBotVersionByName ''$LATEST'' (always [FetchPage None, bot_page []]) ''bot''
   = (''$LATEST'', None)"
proof -
  have e: "first_error (always [FetchPage None, bot_page []] ''bot'') = None"
    by (simp add: always_def bot_page_def)
  have l: "all_labels (always [FetchPage None, bot_page []] ''bot'') = []"
    by (simp add: always_def bot_page_def bots_of_def page_labels_def)
  show ?thesis
    by (rule empty_result_set
        [where conn = "always [FetchPage None, bot_page []]" and name = "''bot''", OF e l])
qed

text \<open>
  Claim C10. For every result set without a failed fetch in which every label that
  \<open>Atoi\<close> accepts denotes a value less than or equal to zero,
  \<open>FindLatestBotVersionByName\<close> returns the sentinel and a \<open>nil\<close> error: numeric labels
  that are not positive never affect the result.
\<close>

theorem non_positive_versions_ignored:
  assumes "first_error (conn name) = None"
    and "\<forall>l \<in> set (all_labels (conn name)). \<forall>v. Atoi l = Some v \<longrightarrow> v \<le> 0"
  shows "FindLatestBotVersionByName sentinel conn name = (sentinel, None)"
proof -
  have "published_versions sentinel (all_labels (conn name)) = []"
    using assms(2)
    by (fastforce simp: published_versions_def filter_empty_conv set_numeric_versions)
  with assms(1) show ?thesis
    by (simp add: resolver_eq latest_published_def)
qed

theorem non_positive_versions_ignored_witness:
  "FindLatestBotVersionByName ''$LATEST'' (always [bot_page [''0'', ''-3''], bot_page [''x'']]) ''bot''
   = (''$LATEST'', None)"
proof -
  let ?t = "[bot_page [''0'', ''-3''], bot_page [''x'']]"
  have e: "first_error (always ?t ''bot'') = None"
    by (simp add: always_def bot_page_def)
  have l: "all_labels (always ?t ''bot'') = [''0'', ''-3'', ''x'']"
    by (simp add: always_def bot_page_def bots_of_def page_labels_def ToString_def)
  have a: "Atoi ''0'' = Some 0" "Atoi ''-3'' = Some (- 3)" "Atoi ''x'' = None"
    by code_simp+
  have h: "\<forall>l \<in> set (all_labels (always ?t ''bot'')). \<forall>v. Atoi l = Some v \<longrightarrow> v \<le> 0"
    by (simp add: l a)
  show ?thesis
    by (rule non_positive_versions_ignored
        [where conn = "always ?t" and name = "''bot''", OF e h])
qed

lemma latest_published_cases:
  "latest_published s ls = s \<or>
   (\<exists>m. 0 < m \<and> m < 2 ^ 63 \<and> m \<in> set (published_versions s ls)
      \<and> (\<forall>v \<in> set (numeric_versions s ls). v \<le> m) \<and> latest_published s ls = Itoa m)"
proof (cases "published_versions s ls = []")
  case True
  then show ?thesis by (simp add: latest_published_def)
next
  case False
  let ?m = "Max (set (published_versions s ls))"
  from False have ne: "set (published_versions s ls) \<noteq> {}"
    using set_empty by blast
  then have mem: "?m \<in> set (published_versions s ls)"
    using Max_in by blast
  then have pos: "0 < ?m" and num: "?m \<in> set (numeric_versions s ls)"
    by (simp_all add: published_versions_def)
  from num have "\<exists>l. Atoi l = Some ?m"
    by (auto simp: set_numeric_versions)
  then have up: "?m < 2 ^ 63"
    using Atoi_range by blast
  have "v \<le> ?m" if "v \<in> set (numeric_versions s ls)" for v
  proof (cases "0 < v")
    case True
    with that have "v \<in> set (published_versions s ls)"
      by (simp add: published_versions_def)
    then show ?thesis by simp
  next
    case False
    with pos show ?thesis by linarith
  qed
  with False pos up mem show ?thesis
    by (auto simp: latest_published_def)
qed

text \<open>
  Claim C4. Whenever \<open>FindLatestBotVersionByName\<close> succeeds (its error is \<open>nil\<close>), the
  version string it returns is either the sentinel or a decimal integer string of digits
  only, so without a sign, and without leading zeros.
\<close>

theorem resolved_version_format:
  assumes "FindLatestBotVersionByName sentinel conn name = (version, None)"
  shows "version = sentinel \<or> is_decimal version"
proof (cases "first_error (conn name)")
  case (Some e)
  with assms show ?thesis by (simp add: resolver_eq)
next
  case None
  with assms have v: "version = latest_published sentinel (all_labels (conn name))"
    by (simp add: resolver_eq)
  from latest_published_cases [of sentinel "all_labels (conn name)"] show ?thesis
  proof
    assume "latest_published sentinel (all_labels (conn name)) = sentinel"
    with v show ?thesis by simp
  next
    assume "\<exists>m. 0 < m \<and> m < 2 ^ 63 \<and> m \<in> set (published_versions sentinel (all_labels (conn name)))
      \<and> (\<forall>v \<in> set (numeric_versions sentinel (all_labels (conn name))). v \<le> m)
      \<and> latest_published sentinel (all_labels (conn name)) = Itoa m"
    then obtain m where "0 < m" "latest_published sentinel (all_labels (conn name)) = Itoa m"
      by blast
    with v show ?thesis by (simp add: is_decimal_Itoa)
  qed
qed

theorem resolved_version_format_witness:
  "FindLatestBotVersionByName ''$LATEST''
     (always [bot_page [''7'', ''+012''], bot_page [''$LATEST'']]) ''bot'' = (''12'', None)
   \<and> (''12'' = ''$LATEST'' \<or> is_decimal ''12'')"
proof -
  have r: "FindLatestBotVersionByName ''$LATEST''
             (always [bot_page [''7'', ''+012''], bot_page [''$LATEST'']]) ''bot'' = (''12'', None)"
    by code_simp
  show ?thesis
    using r resolved_version_format [OF r] by blast
qed

lemma page_fn_continue: "fst (bot_page_fn s page lastPage v) = (\<not> lastPage)"
  by (simp add: bot_page_fn_eq)

text \<open>
  Claim C3, as amended. For every result set of more than one page without a failed fetch,
  where the maximum numeric version label is greater than zero and appears on a page that
  is not the last one, \<open>FindLatestBotVersionByName\<close> returns that maximum as its decimal
  string: the page callback answers \<open>!lastPage\<close> on every page, so the pager goes through
  all pages and never stops after the first.
\<close>

theorem maximum_on_earlier_page:
  assumes "conn name = pre @ FetchPage (Some p) # post"
    and "post \<noteq> []"
    and "first_error (conn name) = None"
    and "b \<in> set (Bots p)"
    and "ToString (bot_Version b) \<noteq> sentinel"
    and "Atoi (ToString (bot_Version b)) = Some m"
    and "0 < m"
    and "\<forall>l \<in> set (all_labels (conn name)). l \<noteq> sentinel \<longrightarrow> (\<forall>n. Atoi l = Some n \<longrightarrow> n \<le> m)"
  shows "FindLatestBotVersionByName sentinel conn name = (Itoa m, None)
    \<and> (\<forall>page lastPage v. fst (bot_page_fn sentinel page lastPage v) = (\<not> lastPage))"
proof -
  let ?ls = "all_labels (conn name)"
  have "ToString (bot_Version b) \<in> set ?ls"
    using assms(1,4) by (auto simp: all_labels_append page_labels_def)
  with assms(5,6) have "m \<in> set (numeric_versions sentinel ?ls)"
    by (auto simp: set_numeric_versions)
  with assms(7) have mem: "m \<in> set (published_versions sentinel ?ls)"
    by (simp add: published_versions_def)
  have ub: "v \<le> m" if "v \<in> set (published_versions sentinel ?ls)" for v
    using that assms(8) by (auto simp: published_versions_def set_numeric_versions)
  have "Max (set (published_versions sentinel ?ls)) = m"
    using mem ub by (intro Max_eqI) auto
  moreover from mem have "published_versions sentinel ?ls \<noteq> []"
    by auto
  ultimately have "latest_published sentinel ?ls = Itoa m"
    by (simp add: latest_published_def)
  with assms(3) show ?thesis
    by (simp add: resolver_eq page_fn_continue)
qed

theorem maximum_on_earlier_page_witness:
  "FindLatestBotVersionByName ''$LATEST''
     (always ([bot_page [''2'']] @ FetchPage (Some (bots_of [Some ''9'', Some ''$LATEST''])) # [bot_page [''3'', ''x'']]))
     ''bot'' = (''9'', None)"
proof -
  let ?pre = "[bot_page [''2'']]"
  let ?p = "bots_of [Some ''9'', Some ''$LATEST'']"
  let ?post = "[bot_page [''3'', ''x'']]"
  let ?b = "\<lparr>bot_Version = Some ''9''\<rparr>"
  let ?conn = "always (?pre @ FetchPage (Some ?p) # ?post)"
  have h1: "?conn ''bot'' = ?pre @ FetchPage (Some ?p) # ?post"
    by (simp add: always_def)
  have h2: "?post \<noteq> []"
    by simp
  have h3: "first_error (?conn ''bot'') = None"
    by (simp add: always_def bot_page_def)
  have h4: "?b \<in> set (Bots ?p)"
    by (simp add: bots_of_def)
  have h5: "ToString (bot_Version ?b) \<noteq> ''$LATEST''"
    by (simp add: ToString_def)
  have h6: "Atoi (ToString (bot_Version ?b)) = Some 9"
    by code_simp
  have h7: "(0::int) < 9"
    by simp
  have l: "all_labels (?conn ''bot'') = [''2'', ''9'', ''$LATEST'', ''3'', ''x'']"
    by (simp add: always_def bot_page_def bots_of_def page_labels_def ToString_def)
  have a: "Atoi ''2'' = Some 2" "Atoi ''9'' = Some 9" "Atoi ''3'' = Some 3" "Atoi ''x'' = None"
    by code_simp+
  have h8: "\<forall>l \<in> set (all_labels (?conn ''bot'')). l \<noteq> ''$LATEST'' \<longrightarrow> (\<forall>n. Atoi l = Some n \<longrightarrow> n \<le> 9)"
    unfolding l by (simp add: a)
  have i: "Itoa 9 = ''9''"
    by code_simp
  show ?thesis
    using maximum_on_earlier_page [where conn = ?conn and name = "''bot''", OF h1 h2 h3 h4 h5 h6 h7 h8]
    by (simp only: i)
qed

text \<open>
  Claim C3 as worded also covers a maximum that is not positive. With the label \<open>0\<close> on
  the first of two pages and no other record, the maximum numeric label is 0 and lies on a
  page that is not the last, yet the resolver returns the sentinel and not the string \<open>0\<close>.
\<close>

theorem maximum_zero_on_earlier_page_counterexample:
  "FindLatestBotVersionByName ''$LATEST'' (always [bot_page [''0''], bot_page []]) ''bot''
     \<noteq> (Itoa 0, None)
   \<and> first_error (always [bot_page [''0''], bot_page []] ''bot'') = None
   \<and> all_labels (always [bot_page [''0''], bot_page []] ''bot'') = [''0'']
   \<and> Atoi ''0'' = Some 0
   \<and> FindLatestBotVersionByName ''$LATEST'' (always [bot_page [''0''], bot_page []]) ''bot''
      = (''$LATEST'', None)"
  by code_simp

lemma numeric_versions_well_formed:
  "numeric_versions s (map (\<lambda>b. ToString (bot_Version b)) (filter (well_formed s) bs))
     = numeric_versions s (map (\<lambda>b. ToString (bot_Version b)) bs)"
  by (induction bs) (auto simp: numeric_versions_Cons well_formed_def split: option.splits)

lemma first_error_drop_malformed: "first_error (drop_malformed s t) = first_error t"
  by (induction t rule: first_error.induct) (simp_all add: drop_malformed_def)

lemma numeric_versions_drop_malformed:
  "numeric_versions s (all_labels (drop_malformed s t)) = numeric_versions s (all_labels t)"
proof (induction t rule: all_labels.induct)
  case 1
  show ?case by (simp add: drop_malformed_def)
next
  case (2 e t)
  then show ?case by (simp add: drop_malformed_def)
next
  case (3 page t)
  have "numeric_versions s (page_labels (map_option (\<lambda>p. p\<lparr>Bots := filter (well_formed s) (Bots p)\<rparr>) page))
          = numeric_versions s (page_labels page)"
    by (cases page) (simp_all add: page_labels_def numeric_versions_well_formed)
  with 3 show ?case
    by (simp add: drop_malformed_def numeric_versions_append)
qed

text \<open>
  Claim C5. Let the sentinel be no numeric label. For every result set, whenever the
  version string that \<open>FindLatestBotVersionByName\<close> returns reads as a decimal integer, that
  integer is not lower than any numeric version label present in the input. Labels that
  are neither numeric nor the sentinel are ignored: removing their records changes
  neither the version nor the error, and the only error the resolver returns is that of a
  failed fetch.
\<close>

theorem never_below_a_numeric_label:
  assumes "Atoi sentinel = None"
  shows "(\<forall>l n m. l \<in> set (all_labels (conn name)) \<and> Atoi l = Some n
             \<and> Atoi (fst (FindLatestBotVersionByName sentinel conn name)) = Some m \<longrightarrow> n \<le> m)
    \<and> FindLatestBotVersionByName sentinel (drop_malformed sentinel \<circ> conn) name
        = FindLatestBotVersionByName sentinel conn name
    \<and> snd (FindLatestBotVersionByName sentinel conn name) = first_error (conn name)"
proof (intro conjI allI impI)
  show "snd (FindLatestBotVersionByName sentinel conn name) = first_error (conn name)"
    by (simp add: resolver_eq split: option.splits)
next
  show "FindLatestBotVersionByName sentinel (drop_malformed sentinel \<circ> conn) name
          = FindLatestBotVersionByName sentinel conn name"
    by (simp add: resolver_eq first_error_drop_malformed latest_published_def
        published_versions_def numeric_versions_drop_malformed split: option.splits)
next
  fix l n m
  let ?ls = "all_labels (conn name)"
  assume h: "l \<in> set ?ls \<and> Atoi l = Some n
    \<and> Atoi (fst (FindLatestBotVersionByName sentinel conn name)) = Some m"
  have empty: "Atoi [] = None"
    by (simp add: Atoi_def)
  from h assms have "l \<noteq> sentinel" by auto
  with h have n: "n \<in> set (numeric_versions sentinel ?ls)"
    by (auto simp: set_numeric_versions)
  show "n \<le> m"
  proof (cases "first_error (conn name)")
    case (Some e)
    with h empty show ?thesis by (simp add: resolver_eq)
  next
    case None
    with h have r: "Atoi (latest_published sentinel ?ls) = Some m"
      by (simp add: resolver_eq)
    from latest_published_cases [of sentinel ?ls] show ?thesis
    proof
      assume "latest_published sentinel ?ls = sentinel"
      with r assms show ?thesis by simp
    next
      assume "\<exists>k. 0 < k \<and> k < 2 ^ 63 \<and> k \<in> set (published_versions sentinel ?ls)
        \<and> (\<forall>v \<in> set (numeric_versions sentinel ?ls). v \<le> k)
        \<and> latest_published sentinel ?ls = Itoa k"
      then obtain k where k: "0 < k" "k < 2 ^ 63" "\<forall>v \<in> set (numeric_versions sentinel ?ls). v \<le> k"
        "latest_published sentinel ?ls = Itoa k"
        by blast
      then have "Atoi (latest_published sentinel ?ls) = Some k"
        by (simp add: Atoi_Itoa)
      with r have "k = m" by simp
      with k n show ?thesis by blast
    qed
  qed
qed

theorem never_below_a_numeric_label_witness:
  "Atoi ''$LATEST'' = None
   \<and> FindLatestBotVersionByName ''$LATEST'' (always [bot_page [''4'', ''v2''], bot_page [''11'']]) ''bot''
       = (''11'', None)
   \<and> (4::int) \<le> 11
   \<and> FindLatestBotVersionByName ''$LATEST''
        (drop_malformed ''$LATEST'' \<circ> always [bot_page [''4'', ''v2''], bot_page [''11'']]) ''bot''
       = (''11'', None)"
proof -
  let ?conn = "always [bot_page [''4'', ''v2''], bot_page [''11'']]"
  have s: "Atoi ''$LATEST'' = None"
    by code_simp
  have r: "FindLatestBotVersionByName ''$LATEST'' ?conn ''bot'' = (''11'', None)"
    by code_simp
  have l: "''4'' \<in> set (all_labels (?conn ''bot''))"
    by (simp add: always_def bot_page_def bots_of_def page_labels_def ToString_def)
  have a: "Atoi ''4'' = Some 4" "Atoi ''11'' = Some 11"
    by code_simp+
  note t = never_below_a_numeric_label [where conn = ?conn and name = "''bot''", OF s]
  from t have "(4::int) \<le> 11"
    using l a r by (metis fst_conv)
  moreover from t r have "FindLatestBotVersionByName ''$LATEST'' (drop_malformed ''$LATEST'' \<circ> ?conn) ''bot''
       = (''11'', None)"
    by simp
  ultimately show ?thesis
    using s r by blast
qed

text \<open>
  Claim C8. For the labels \<open>5\<close>, \<open>abc\<close>, \<open>2\<close> (and a sentinel that is no numeric label)
  \<open>FindLatestBotVersionByName\<close> returns \<open>5\<close> and a \<open>nil\<close> error. On every result set a
  record whose label \<open>Atoi\<close> rejects is skipped and never aborts the scan: whatever page it
  is on and wherever it stands among the records of that page, the resolver returns the
  version and the error it returns for the result set without that record, so the records
  and the pages after it still count; the same holds when all malformed records are
  removed at once; the error the resolver returns is that of a failed fetch and nothing
  else; and within a page the scan of the records goes on after the malformed one.
\<close>

theorem malformed_label_skipped:
  "(Atoi sentinel = None \<longrightarrow>
      FindLatestBotVersionByName sentinel (always [bot_page [''5'', ''abc'', ''2'']]) name = (''5'', None))
   \<and> (conn name = earlier @ FetchPage (Some p) # later
        \<and> Bots p = pre @ b # post
        \<and> Atoi (ToString (bot_Version b)) = None
        \<and> conn' name = earlier @ FetchPage (Some (p\<lparr>Bots := pre @ post\<rparr>)) # later \<longrightarrow>
        FindLatestBotVersionByName sentinel conn name = FindLatestBotVersionByName sentinel conn' name)
   \<and> FindLatestBotVersionByName sentinel (drop_malformed sentinel \<circ> conn) name
        = FindLatestBotVersionByName sentinel conn name
   \<and> snd (FindLatestBotVersionByName sentinel conn name) = first_error (conn name)
   \<and> (Atoi (ToString (bot_Version b)) = None \<longrightarrow>
        scan_bots sentinel (pre @ b # post) v = scan_bots sentinel (pre @ post) v)"
proof (intro conjI impI)
  assume s: "Atoi sentinel = None"
  have a: "Atoi ''5'' = Some 5" "Atoi ''abc'' = None" "Atoi ''2'' = Some 2"
    by code_simp+
  have i: "Itoa 5 = ''5''"
    by code_simp
  from s a have ne: "''5'' \<noteq> sentinel" "''2'' \<noteq> sentinel"
    by auto
  have e: "first_error (always [bot_page [''5'', ''abc'', ''2'']] name) = None"
    by (simp add: always_def bot_page_def)
  have l: "all_labels (always [bot_page [''5'', ''abc'', ''2'']] name) = [''5'', ''abc'', ''2'']"
    by (simp add: always_def bot_page_def bots_of_def page_labels_def ToString_def)
  have "numeric_versions sentinel [''5'', ''abc'', ''2''] = [5, 2]"
    using ne by (simp add: numeric_versions_Cons numeric_versions_Nil a)
  then have "latest_published sentinel [''5'', ''abc'', ''2''] = ''5''"
    by (simp add: latest_published_def published_versions_def i)
  with e l show "FindLatestBotVersionByName sentinel (always [bot_page [''5'', ''abc'', ''2'']]) name = (''5'', None)"
    by (simp add: resolver_eq)
next
  assume h: "conn name = earlier @ FetchPage (Some p) # later
        \<and> Bots p = pre @ b # post
        \<and> Atoi (ToString (bot_Version b)) = None
        \<and> conn' name = earlier @ FetchPage (Some (p\<lparr>Bots := pre @ post\<rparr>)) # later"
  then have fe: "first_error (conn' name) = first_error (conn name)"
    by (simp add: first_error_append split: option.splits)
  from h have "numeric_versions sentinel (page_labels (Some (p\<lparr>Bots := pre @ post\<rparr>)))
      = numeric_versions sentinel (page_labels (Some p))"
    by (simp add: page_labels_def numeric_versions_append numeric_versions_Cons)
  with h have "numeric_versions sentinel (all_labels (conn' name))
      = numeric_versions sentinel (all_labels (conn name))"
    by (simp add: all_labels_append numeric_versions_append)
  with fe show "FindLatestBotVersionByName sentinel conn name = FindLatestBotVersionByName sentinel conn' name"
    by (simp add: resolver_eq latest_published_def published_versions_def split: option.splits)
next
  show "FindLatestBotVersionByName sentinel (drop_malformed sentinel \<circ> conn) name
          = FindLatestBotVersionByName sentinel conn name"
    by (simp add: resolver_eq first_error_drop_malformed latest_published_def
        published_versions_def numeric_versions_drop_malformed split: option.splits)
next
  show "snd (FindLatestBotVersionByName sentinel conn name) = first_error (conn name)"
    by (simp add: resolver_eq split: option.splits)
next
  assume "Atoi (ToString (bot_Version b)) = None"
  then show "scan_bots sentinel (pre @ b # post) v = scan_bots sentinel (pre @ post) v"
    by (simp add: scan_bots_fold numeric_versions_append numeric_versions_Cons)
qed

theorem malformed_label_skipped_witness:
  "FindLatestBotVersionByName ''$LATEST'' (always [bot_page [''5'', ''abc'', ''2'']]) ''bot'' = (''5'', None)
   \<and> FindLatestBotVersionByName ''$LATEST''
        (always ([] @ FetchPage (Some (bots_of [Some ''5'', Some ''abc''])) # [bot_page [''9'']])) ''bot''
      = (''9'', None)
   \<and> FindLatestBotVersionByName ''$LATEST''
        (always ([] @ FetchPage (Some (bots_of [Some ''5'', Some ''abc'']\<lparr>Bots := [\<lparr>bot_Version = Some ''5''\<rparr>] @ []\<rparr>))
                   # [bot_page [''9'']])) ''bot''
      = (''9'', None)
   \<and> FindLatestBotVersionByName ''$LATEST''
        (drop_malformed ''$LATEST'' \<circ> always ([] @ FetchPage (Some (bots_of [Some ''5'', Some ''abc''])) # [bot_page [''9'']]))
        ''bot''
      = (''9'', None)
   \<and> scan_bots ''$LATEST'' ([\<lparr>bot_Version = Some ''5''\<rparr>] @ \<lparr>bot_Version = Some ''abc''\<rparr> # []) 0
      = scan_bots ''$LATEST'' ([\<lparr>bot_Version = Some ''5''\<rparr>] @ []) 0"
proof -
  let ?p = "bots_of [Some ''5'', Some ''abc'']"
  let ?b = "\<lparr>bot_Version = Some ''abc''\<rparr>"
  let ?pre = "[\<lparr>bot_Version = Some ''5''\<rparr>]"
  let ?later = "[bot_page [''9'']]"
  let ?conn = "always ([] @ FetchPage (Some ?p) # ?later)"
  let ?conn' = "always ([] @ FetchPage (Some (?p\<lparr>Bots := ?pre @ []\<rparr>)) # ?later)"
  have s: "Atoi ''$LATEST'' = None"
    by code_simp
  have m: "Atoi (ToString (bot_Version ?b)) = None"
    by code_simp
  have c: "?conn ''bot'' = [] @ FetchPage (Some ?p) # ?later"
    by (simp add: always_def)
  have c': "?conn' ''bot'' = [] @ FetchPage (Some (?p\<lparr>Bots := ?pre @ []\<rparr>)) # ?later"
    by (simp add: always_def)
  have bs: "Bots ?p = ?pre @ ?b # []"
    by (simp add: bots_of_def)
  have r: "FindLatestBotVersionByName ''$LATEST'' ?conn ''bot'' = (''9'', None)"
    by code_simp
  note t = malformed_label_skipped
    [where sentinel = "''$LATEST''" and name = "''bot''" and conn = ?conn and conn' = ?conn'
       and earlier = "[]" and later = ?later and p = ?p and pre = ?pre and b = ?b and post = "[]"
       and v = 0]
  from t s have c1: "FindLatestBotVersionByName ''$LATEST'' (always [bot_page [''5'', ''abc'', ''2'']]) ''bot'' = (''5'', None)"
    by blast
  from t c c' bs m have "FindLatestBotVersionByName ''$LATEST'' ?conn ''bot''
      = FindLatestBotVersionByName ''$LATEST'' ?conn' ''bot''"
    by blast
  with r have c2: "FindLatestBotVersionByName ''$LATEST'' ?conn' ''bot'' = (''9'', None)"
    by simp
  from t have "FindLatestBotVersionByName ''$LATEST'' (drop_malformed ''$LATEST'' \<circ> ?conn) ''bot''
      = FindLatestBotVersionByName ''$LATEST'' ?conn ''bot''"
    by blast
  with r have c3: "FindLatestBotVersionByName ''$LATEST'' (drop_malformed ''$LATEST'' \<circ> ?conn) ''bot'' = (''9'', None)"
    by simp
  from t m have c4: "scan_bots ''$LATEST'' (?pre @ ?b # []) 0 = scan_bots ''$LATEST'' (?pre @ []) 0"
    by blast
  from c1 r c2 c3 c4 show ?thesis
    by blast
qed

subsection \<open>The three resolvers\<close>

lemma scan_intents_bots:
  "scan_intents s (map (\<lambda>v. \<lparr>intent_Version = v\<rparr>) vs) x = scan_bots s (map (\<lambda>v. \<lparr>bot_Version = v\<rparr>) vs) x"
  by (induction vs arbitrary: x) (simp_all add: Let_def split: option.splits)

lemma scan_slots_bots:
  "scan_slots s (map (\<lambda>v. \<lparr>slot_Version = v\<rparr>) vs) x = scan_bots s (map (\<lambda>v. \<lparr>bot_Version = v\<rparr>) vs) x"
  by (induction vs arbitrary: x) (simp_all add: Let_def split: option.splits)

lemma intent_page_fn_bots:
  "intent_page_fn s (map_option intents_of page) lastPage x = bot_page_fn s (map_option bots_of page) lastPage x"
  by (cases page) (simp_all add: intent_page_fn_def bot_page_fn_def intents_of_def bots_of_def scan_intents_bots)

lemma slot_page_fn_bots:
  "slot_page_fn s (map_option slot_types_of page) lastPage x = bot_page_fn s (map_option bots_of page) lastPage x"
  by (cases page) (simp_all add: slot_page_fn_def bot_page_fn_def slot_types_of_def bots_of_def scan_slots_bots)

lemma pages_intents_bots:
  "PagesWithContext (map (map_fetch intents_of) t) (intent_page_fn s) x
     = PagesWithContext (map (map_fetch bots_of) t) (bot_page_fn s) x"
proof (induction t arbitrary: x)
  case Nil
  show ?case by simp
next
  case (Cons f t)
  show ?case
  proof (cases f)
    case (FetchError e)
    then show ?thesis by simp
  next
    case (FetchPage page)
    then show ?thesis
      by (simp add: intent_page_fn_bots bot_page_fn_eq Cons.IH cong: if_cong)
  qed
qed

lemma pages_slots_bots:
  "PagesWithContext (map (map_fetch slot_types_of) t) (slot_page_fn s) x
     = PagesWithContext (map (map_fetch bots_of) t) (bot_page_fn s) x"
proof (induction t arbitrary: x)
  case Nil
  show ?case by simp
next
  case (Cons f t)
  show ?case
  proof (cases f)
    case (FetchError e)
    then show ?thesis by simp
  next
    case (FetchPage page)
    then show ?thesis
      by (simp add: slot_page_fn_bots bot_page_fn_eq Cons.IH cong: if_cong)
  qed
qed

text \<open>
  Claim C6. The resolvers for bots, intents and slot types implement the same resolution:
  given the same sentinel literal and listings that answer with the same sequence of
  fetch results (the same errors, the same \<open>nil\<close> pages, the same version fields in the same
  order), \<open>FindLatestIntentVersionByName\<close> and \<open>FindLatestSlotTypeVersionByName\<close> return
  the version string and the error that \<open>FindLatestBotVersionByName\<close> returns.
\<close>

theorem resolvers_agree:
  "FindLatestIntentVersionByName sentinel (map (map_fetch intents_of) \<circ> listing) name
     = FindLatestBotVersionByName sentinel (map (map_fetch bots_of) \<circ> listing) name
   \<and> FindLatestSlotTypeVersionByName sentinel (map (map_fetch slot_types_of) \<circ> listing) name
     = FindLatestBotVersionByName sentinel (map (map_fetch bots_of) \<circ> listing) name"
  by (simp add: FindLatestIntentVersionByName_def FindLatestSlotTypeVersionByName_def
      FindLatestBotVersionByName_def pages_intents_bots pages_slots_bots)

theorem resolvers_agree_witness:
  "FindLatestIntentVersionByName ''$LATEST''
     (map (map_fetch intents_of) \<circ> always [FetchPage (Some [Some ''3'', None]), FetchPage None, FetchPage (Some [Some ''10''])]) ''x''
     = (''10'', None)
   \<and> FindLatestSlotTypeVersionByName ''$LATEST''
     (map (map_fetch slot_types_of) \<circ> always [FetchPage (Some [Some ''3'', None]), FetchPage None, FetchPage (Some [Some ''10''])]) ''x''
     = (''10'', None)"
proof -
  let ?l = "always [FetchPage (Some [Some ''3'', None]), FetchPage None, FetchPage (Some [Some ''10''])]"
  have b: "FindLatestBotVersionByName ''$LATEST'' (map (map_fetch bots_of) \<circ> ?l) ''x'' = (''10'', None)"
    by code_simp
  show ?thesis
    using resolvers_agree [of "''$LATEST''" ?l "''x''"] by (simp only: b)
qed

subsection \<open>Single-item lookups\<close>

text \<open>
  Claim C9. \<open>FindBotVersionByName\<close>, and likewise \<open>FindSlotTypeVersionByName\<close>, translate
  the not-found condition: when the call fails with a \<open>NotFoundException\<close> the result is a
  \<open>nil\<close> output and a \<open>NotFoundError\<close> holding that error and the request; any other
  error is returned unchanged with a \<open>nil\<close> output; when the call succeeds with a \<open>nil\<close>
  output the result is the empty-result error for the request; otherwise the output is
  returned with a \<open>nil\<close> error.
\<close>

theorem single_item_lookup:
  "(GetBot (GetBotInput name version) = (any_output, err) \<and> IsA_NotFoundException err \<longrightarrow>
      FindBotVersionByName GetBot name version
        = (None, Some (NotFoundError err (GetBotInput name version))))
   \<and> (GetBot (GetBotInput name version) = (any_output, Some e) \<and> \<not> is_NotFoundException e \<longrightarrow>
      FindBotVersionByName GetBot name version = (None, Some e))
   \<and> (GetBot (GetBotInput name version) = (None, None) \<longrightarrow>
      FindBotVersionByName GetBot name version
        = (None, Some (EmptyResultError (GetBotInput name version))))
   \<and> (GetBot (GetBotInput name version) = (Some out, None) \<longrightarrow>
      FindBotVersionByName GetBot name version = (Some out, None))
   \<and> (GetSlotType (GetSlotTypeInput name version) = (any_output', err') \<and> IsA_NotFoundException err' \<longrightarrow>
      FindSlotTypeVersionByName GetSlotType name version
        = (None, Some (NotFoundError err' (GetSlotTypeInput name version))))
   \<and> (GetSlotType (GetSlotTypeInput name version) = (any_output', Some e') \<and> \<not> is_NotFoundException e' \<longrightarrow>
      FindSlotTypeVersionByName GetSlotType name version = (None, Some e'))
   \<and> (GetSlotType (GetSlotTypeInput name version) = (None, None) \<longrightarrow>
      FindSlotTypeVersionByName GetSlotType name version
        = (None, Some (EmptyResultError (GetSlotTypeInput name version))))
   \<and> (GetSlotType (GetSlotTypeInput name version) = (Some out', None) \<longrightarrow>
      FindSlotTypeVersionByName GetSlotType name version = (Some out', None))"
  by (simp add: FindBotVersionByName_def FindSlotTypeVersionByName_def IsA_NotFoundException_def)

theorem single_item_lookup_witness:
  "FindBotVersionByName (always (None :: string option, Some (NotFoundException ''gone''))) ''greeter'' ''1''
     = (None, Some (NotFoundError (Some (NotFoundException ''gone'')) (GetBotInput ''greeter'' ''1'')))
   \<and> FindBotVersionByName (always (None :: string option, Some (ServiceError ''throttled''))) ''greeter'' ''1''
     = (None, Some (ServiceError ''throttled''))
   \<and> FindBotVersionByName (always (None :: string option, None)) ''greeter'' ''1''
     = (None, Some (EmptyResultError (GetBotInput ''greeter'' ''1'')))
   \<and> FindBotVersionByName (always (Some ''definition'', None)) ''greeter'' ''1''
     = (Some ''definition'', None)
   \<and> FindSlotTypeVersionByName
       (always (None :: string option, Some (Wrapped ''api error'' (NotFoundException ''gone'')))) ''greeter'' ''1''
     = (None, Some (NotFoundError (Some (Wrapped ''api error'' (NotFoundException ''gone'')))
                      (GetSlotTypeInput ''greeter'' ''1'')))
   \<and> FindSlotTypeVersionByName (always (None :: string option, Some (ServiceError ''throttled''))) ''greeter'' ''1''
     = (None, Some (ServiceError ''throttled''))
   \<and> FindSlotTypeVersionByName (always (None :: string option, None)) ''greeter'' ''1''
     = (None, Some (EmptyResultError (GetSlotTypeInput ''greeter'' ''1'')))
   \<and> FindSlotTypeVersionByName (always (Some ''definition'', None)) ''greeter'' ''1''
     = (Some ''definition'', None)"
proof -
  let ?nf = "NotFoundException ''gone''"
  let ?wnf = "Wrapped ''api error'' (NotFoundException ''gone'')"
  let ?se = "ServiceError ''throttled''"
  let ?none = "None :: string option"
  have nf: "IsA_NotFoundException (Some ?nf)" "IsA_NotFoundException (Some ?wnf)"
    by (simp_all add: IsA_NotFoundException_def)
  have se: "\<not> is_NotFoundException ?se"
    by simp
  have a: "FindBotVersionByName (always (?none, Some ?nf)) ''greeter'' ''1''
             = (None, Some (NotFoundError (Some ?nf) (GetBotInput ''greeter'' ''1'')))
           \<and> FindSlotTypeVersionByName (always (?none, Some ?wnf)) ''greeter'' ''1''
             = (None, Some (NotFoundError (Some ?wnf) (GetSlotTypeInput ''greeter'' ''1'')))"
    using nf single_item_lookup
      [where GetBot = "always (?none, Some ?nf)" and GetSlotType = "always (?none, Some ?wnf)"
         and name = "''greeter''" and version = "''1''"
         and any_output = ?none and err = "Some ?nf" and e = ?nf and out = "''definition''"
         and any_output' = ?none and err' = "Some ?wnf" and e' = ?wnf and out' = "''definition''"]
    by (simp add: always_def)
  have b: "FindBotVersionByName (always (?none, Some ?se)) ''greeter'' ''1'' = (None, Some ?se)
           \<and> FindSlotTypeVersionByName (always (?none, Some ?se)) ''greeter'' ''1'' = (None, Some ?se)"
    using se single_item_lookup
      [where GetBot = "always (?none, Some ?se)" and GetSlotType = "always (?none, Some ?se)"
         and name = "''greeter''" and version = "''1''"
         and any_output = ?none and err = "Some ?se" and e = ?se and out = "''definition''"
         and any_output' = ?none and err' = "Some ?se" and e' = ?se and out' = "''definition''"]
    by (simp add: always_def)
  have c: "FindBotVersionByName (always (?none, None)) ''greeter'' ''1''
             = (None, Some (EmptyResultError (GetBotInput ''greeter'' ''1'')))
           \<and> FindSlotTypeVersionByName (always (?none, None)) ''greeter'' ''1''
             = (None, Some (EmptyResultError (GetSlotTypeInput ''greeter'' ''1'')))"
    using single_item_lookup
      [where GetBot = "always (?none, None)" and GetSlotType = "always (?none, None)"
         and name = "''greeter''" and version = "''1''"
         and any_output = ?none and err = None and e = ?se and out = "''definition''"
         and any_output' = ?none and err' = None and e' = ?se and out' = "''definition''"]
    by (simp add: always_def)
  have d: "FindBotVersionByName (always (Some ''definition'', None)) ''greeter'' ''1''
             = (Some ''definition'', None)
           \<and> FindSlotTypeVersionByName (always (Some ''definition'', None)) ''greeter'' ''1''
             = (Some ''definition'', None)"
    using single_item_lookup
      [where GetBot = "always (Some ''definition'', None)" and GetSlotType = "always (Some ''definition'', None)"
         and name = "''greeter''" and version = "''1''"
         and any_output = "Some ''definition''" and err = None and e = ?se and out = "''definition''"
         and any_output' = "Some ''definition''" and err' = None and e' = ?se and out' = "''definition''"]
    by (simp add: always_def)
  from a b c d show ?thesis
    by blast
qed

end
